theory Spec2Isabelle
  imports Main "HOL-Library.Word"
begin

section \<open>The global memory arbitrator (be/src/runtime/memory/global_memory_arbitrator.h)\<close>

text \<open>
  Every counter of \<^verbatim>\<open>GlobalMemoryArbitrator\<close> is an \<^verbatim>\<open>int64_t\<close>. It is modelled as a
  64-bit word: \<open>+\<close> and \<open>-\<close> wrap around as two's complement does, \<open>sint\<close> reads the signed
  value, and the comparisons of the source, which are signed, are \<open>\<le>s\<close> and \<open><s\<close>.
\<close>

type_synonym int64 = "64 word"

text \<open>
  The class has only static members, so the state of the arbitrator is the state of the
  process. The record holds
  \<^item> the values the header reads from its collaborators: \<^verbatim>\<open>PerfCounters::get_vm_rss()\<close>,
    \<^verbatim>\<open>MemInfo::_s_sys_mem_available\<close> and the four thresholds of \<^verbatim>\<open>MemInfo\<close>;
  \<^item> the static members \<^verbatim>\<open>refresh_interval_memory_growth\<close>,
    \<^verbatim>\<open>_process_reserved_memory\<close> (field \<open>m_process_reserved_memory\<close>) and the two notify
    flags; for each condition variable, the number of threads blocked on it, which is all
    that \<^verbatim>\<open>notify_all\<close> acts on;
  \<^item> the reservation the calling thread holds and has not consumed yet, the thread-local
    amount that \<^verbatim>\<open>sub_thread_reserve_memory\<close> consults according to the spec (the header
    does not show where it is kept);
  \<^item> the number of calls of \<^verbatim>\<open>print_log_process_usage()\<close> made so far, the only trace
    the diagnostic snapshot leaves in the model.
  The three \<^verbatim>\<open>std::atomic<double>\<close> capacity weights and
  \<^verbatim>\<open>any_workload_group_exceed_limit\<close> are declared in the header and used by none of its
  functions; they are left out. Calls are modelled one at a time: a function takes the
  state and returns its result and the state it leaves. The additions and subtractions of
  the inline functions are the plain \<^verbatim>\<open>int64_t\<close> ones of C++, modelled as the machine
  computes them.
\<close>

record arbitrator =
  vm_rss :: int64
  s_sys_mem_available :: int64
  mem_limit :: int64
  soft_mem_limit :: int64
  sys_mem_available_low_water_mark :: int64
  sys_mem_available_warning_water_mark :: int64
  refresh_interval_memory_growth :: int64
  m_process_reserved_memory :: int64
  cache_adjust_capacity_notify :: bool
  cache_adjust_capacity_cv_waiting :: nat
  memtable_memory_refresh_notify :: bool
  memtable_memory_refresh_cv_waiting :: nat
  thread_reserved_mem :: int64
  print_log_process_usage_calls :: nat

definition reset_refresh_interval_memory_growth :: "arbitrator \<Rightarrow> arbitrator" where
  "reset_refresh_interval_memory_growth s = s\<lparr>refresh_interval_memory_growth := 0\<rparr>"

definition process_reserved_memory :: "arbitrator \<Rightarrow> int64" where
  "process_reserved_memory s = m_process_reserved_memory s"

definition process_memory_usage :: "arbitrator \<Rightarrow> int64" where
  "process_memory_usage s =
     vm_rss s + refresh_interval_memory_growth s + process_reserved_memory s"

definition sys_mem_available :: "arbitrator \<Rightarrow> int64" where
  "sys_mem_available s =
     s_sys_mem_available s - refresh_interval_memory_growth s - process_reserved_memory s"

text \<open>
  \<^verbatim>\<open>ProcessProfile::instance()->memory_profile()->print_log_process_usage()\<close> writes the
  diagnostic snapshot. The model counts the calls.
\<close>

definition print_log_process_usage :: "arbitrator \<Rightarrow> arbitrator" where
  "print_log_process_usage s =
     s\<lparr>print_log_process_usage_calls := Suc (print_log_process_usage_calls s)\<rparr>"

text \<open>
  The two admission predicates. The header declares \<^verbatim>\<open>sub_thread_reserve_memory\<close> and
  does not define it, so the predicates take it as the parameter \<open>sub\<close>, a function from
  the byte count and the state to its result and the state it leaves. The conjunction
  \<^verbatim>\<open>bytes > 0 && sub_thread_reserve_memory(bytes) <= 0\<close> short-circuits: \<open>sub\<close> runs only
  when \<open>bytes\<close> is positive. A predicate returns its boolean and the state after the call.
\<close>

definition is_exceed_soft_mem_limit ::
  "(int64 \<Rightarrow> arbitrator \<Rightarrow> int64 \<times> arbitrator) \<Rightarrow> int64 \<Rightarrow> arbitrator \<Rightarrow> bool \<times> arbitrator" where
  "is_exceed_soft_mem_limit sub bytes s =
     (let (covered, s1) =
            (if 0 <s bytes then (case sub bytes s of (r, s') \<Rightarrow> (r \<le>s 0, s'))
             else (False, s))
      in if covered then (False, s1)
         else (let rt = (soft_mem_limit s1 \<le>s process_memory_usage s1 + bytes \<or>
                         sys_mem_available s1 - bytes <s sys_mem_available_warning_water_mark s1)
               in (rt, if rt then print_log_process_usage s1 else s1)))"

definition is_exceed_hard_mem_limit ::
  "(int64 \<Rightarrow> arbitrator \<Rightarrow> int64 \<times> arbitrator) \<Rightarrow> int64 \<Rightarrow> arbitrator \<Rightarrow> bool \<times> arbitrator" where
  "is_exceed_hard_mem_limit sub bytes s =
     (let (covered, s1) =
            (if 0 <s bytes then (case sub bytes s of (r, s') \<Rightarrow> (r \<le>s 0, s'))
             else (False, s))
      in if covered then (False, s1)
         else (let rt = (mem_limit s1 \<le>s process_memory_usage s1 + bytes \<or>
                         sys_mem_available s1 - bytes <s sys_mem_available_low_water_mark s1)
               in (rt, if rt then print_log_process_usage s1 else s1)))"

text \<open>
  The notifiers store \<^verbatim>\<open>true\<close> into the flag and call \<^verbatim>\<open>notify_all()\<close> on the
  condition variable, which releases every thread blocked on it.
\<close>

definition notify_cache_adjust_capacity :: "arbitrator \<Rightarrow> arbitrator" where
  "notify_cache_adjust_capacity s =
     s\<lparr>cache_adjust_capacity_notify := True, cache_adjust_capacity_cv_waiting := 0\<rparr>"

definition notify_memtable_memory_refresh :: "arbitrator \<Rightarrow> arbitrator" where
  "notify_memtable_memory_refresh s =
     s\<lparr>memtable_memory_refresh_notify := True, memtable_memory_refresh_cv_waiting := 0\<rparr>"

subsection \<open>The reservation ledger\<close>

text \<open>
  Modelled from the spec: the body of \<^verbatim>\<open>reserve_process_memory\<close>, which the header only
  declares. It is the unconditional reservation: it always increments the reserved memory
  by \<open>bytes\<close>, and returns \<^verbatim>\<open>true\<close>.
\<close>

definition reserve_process_memory :: "int64 \<Rightarrow> arbitrator \<Rightarrow> bool \<times> arbitrator" where
  "reserve_process_memory bytes s =
     (True, s\<lparr>m_process_reserved_memory := m_process_reserved_memory s + bytes\<rparr>)"

text \<open>
  Modelled from the spec: the body of \<^verbatim>\<open>try_reserve_process_memory\<close>, which the header
  only declares. It increments the reserved memory by \<open>bytes\<close> and returns whether the
  reservation was accepted. The spec leaves the rejection policy open, so the policy is
  the parameter \<open>reject\<close>; a rejected reservation leaves the state as it was.
\<close>

definition try_reserve_process_memory ::
  "(int64 \<Rightarrow> arbitrator \<Rightarrow> bool) \<Rightarrow> int64 \<Rightarrow> arbitrator \<Rightarrow> bool \<times> arbitrator" where
  "try_reserve_process_memory reject bytes s =
     (if reject bytes s then (False, s)
      else (True, s\<lparr>m_process_reserved_memory := m_process_reserved_memory s + bytes\<rparr>))"

text \<open>
  Modelled from the spec: the body of \<^verbatim>\<open>shrink_process_reserved\<close>, which the header only
  declares. It decrements the reserved memory by \<open>bytes\<close>, clamped at zero.
\<close>

definition shrink_process_reserved :: "int64 \<Rightarrow> arbitrator \<Rightarrow> arbitrator" where
  "shrink_process_reserved bytes s =
     (let n = m_process_reserved_memory s - bytes
      in s\<lparr>m_process_reserved_memory := (if n <s 0 then 0 else n)\<rparr>)"

text \<open>
  Modelled from the spec: the body of \<^verbatim>\<open>sub_thread_reserve_memory\<close>, which the header
  only declares. Given the reservation the calling thread still holds, it determines how
  much of \<open>bytes\<close> that reservation covers, consumes that much of the thread's reservation,
  drains the same amount from the global ledger, and returns the remainder that still
  needs a limit check. With nothing to cover (no bytes asked, or no reservation held) it
  returns \<open>bytes\<close> and changes nothing.
\<close>

definition sub_thread_reserve_memory :: "int64 \<Rightarrow> arbitrator \<Rightarrow> int64 \<times> arbitrator" where
  "sub_thread_reserve_memory bytes s =
     (let reserved = thread_reserved_mem s
      in if bytes \<le>s 0 \<or> reserved \<le>s 0 then (bytes, s)
         else (let covered = (if bytes \<le>s reserved then bytes else reserved)
               in (bytes - covered,
                   shrink_process_reserved covered
                     (s\<lparr>thread_reserved_mem := reserved - covered\<rparr>))))"

text \<open>
  Sequences of calls on the ledger, to speak of the states the four mutating operations
  reach. \<open>increments_fit\<close> holds of a sequence whose reservations are made with a
  non-negative \<open>bytes\<close> that the counter can take without wrapping around; a reservation
  that \<open>try_reserve_process_memory\<close> rejects adds nothing and always fits.
\<close>

datatype ledger_call =
  Reserve int64 | Try_reserve int64 | Shrink int64 | Sub_thread_reserve int64

fun ledger_step :: "(int64 \<Rightarrow> arbitrator \<Rightarrow> bool) \<Rightarrow> ledger_call \<Rightarrow> arbitrator \<Rightarrow> arbitrator" where
  "ledger_step reject (Reserve bytes) s = snd (reserve_process_memory bytes s)"
| "ledger_step reject (Try_reserve bytes) s = snd (try_reserve_process_memory reject bytes s)"
| "ledger_step reject (Shrink bytes) s = shrink_process_reserved bytes s"
| "ledger_step reject (Sub_thread_reserve bytes) s = snd (sub_thread_reserve_memory bytes s)"

fun ledger_run ::
  "(int64 \<Rightarrow> arbitrator \<Rightarrow> bool) \<Rightarrow> ledger_call list \<Rightarrow> arbitrator \<Rightarrow> arbitrator" where
  "ledger_run reject [] s = s"
| "ledger_run reject (c # cs) s = ledger_run reject cs (ledger_step reject c s)"

definition increment_fits :: "int64 \<Rightarrow> arbitrator \<Rightarrow> bool" where
  "increment_fits bytes s =
     (0 \<le>s bytes \<and> sint (process_reserved_memory s) + sint bytes < 2 ^ 63)"

fun call_fits :: "(int64 \<Rightarrow> arbitrator \<Rightarrow> bool) \<Rightarrow> ledger_call \<Rightarrow> arbitrator \<Rightarrow> bool" where
  "call_fits reject (Reserve bytes) s = increment_fits bytes s"
| "call_fits reject (Try_reserve bytes) s = (if reject bytes s then True else increment_fits bytes s)"
| "call_fits reject (Shrink bytes) s = True"
| "call_fits reject (Sub_thread_reserve bytes) s = True"

fun increments_fit ::
  "(int64 \<Rightarrow> arbitrator \<Rightarrow> bool) \<Rightarrow> ledger_call list \<Rightarrow> arbitrator \<Rightarrow> bool" where
  "increments_fit reject [] s = True"
| "increments_fit reject (c # cs) s =
     (call_fits reject c s \<and> increments_fit reject cs (ledger_step reject c s))"

text \<open>A state to evaluate the functions on: the scenario values of the usage estimator.\<close>

definition scenario_state :: arbitrator where
  "scenario_state =
     \<lparr>vm_rss = 1000, s_sys_mem_available = 5000, mem_limit = 8000, soft_mem_limit = 7000,
      sys_mem_available_low_water_mark = 100, sys_mem_available_warning_water_mark = 200,
      refresh_interval_memory_growth = 50, m_process_reserved_memory = 20,
      cache_adjust_capacity_notify = False, cache_adjust_capacity_cv_waiting = 0,
      memtable_memory_refresh_notify = False, memtable_memory_refresh_cv_waiting = 0,
      thread_reserved_mem = 0, print_log_process_usage_calls = 0\<rparr>"

text \<open>
  A state under pressure: the usage estimate is above both limits, and the calling thread
  holds a reservation of 10 bytes.
\<close>

definition pressure_state :: arbitrator where
  "pressure_state =
     \<lparr>vm_rss = 9000, s_sys_mem_available = 5000, mem_limit = 8000, soft_mem_limit = 7000,
      sys_mem_available_low_water_mark = 100, sys_mem_available_warning_water_mark = 200,
      refresh_interval_memory_growth = 50, m_process_reserved_memory = 10,
      cache_adjust_capacity_notify = False, cache_adjust_capacity_cv_waiting = 3,
      memtable_memory_refresh_notify = False, memtable_memory_refresh_cv_waiting = 0,
      thread_reserved_mem = 10, print_log_process_usage_calls = 0\<rparr>"

section \<open>Appending rows by a selector (be/src/vec/columns/column_impl.h)\<close>

text \<open>
  \<^verbatim>\<open>IColumn::append_data_by_selector_impl<Derived>\<close> is a template over the column class
  \<^verbatim>\<open>Derived\<close>. \<^verbatim>\<open>IColumn\<close> and the column classes are declared in
  \<^verbatim>\<open>vec/columns/column.h\<close>, which this file only includes, so the three operations
  the function calls on a column are parameters of the model: \<open>size_of\<close> for
  \<^verbatim>\<open>size()\<close>, \<open>reserve\<close> for \<^verbatim>\<open>reserve(n)\<close>, and \<open>insert_from src n res\<close> for
  \<^verbatim>\<open>res.insert_from(src, n)\<close>, which gives the destination as the call leaves it.
\<close>

record 'c derived =
  size_of :: "'c \<Rightarrow> nat"
  reserve :: "nat \<Rightarrow> 'c \<Rightarrow> 'c"
  insert_from :: "'c \<Rightarrow> nat \<Rightarrow> 'c \<Rightarrow> 'c"

text \<open>
  \<^verbatim>\<open>Selector\<close> is a \<^verbatim>\<open>PaddedPODArray<size_t>\<close>, from \<^verbatim>\<open>vec/common/pod_array.h\<close>,
  which this file only includes. The function uses its \<^verbatim>\<open>size()\<close> and its
  \<^verbatim>\<open>operator[]\<close>, which reads the memory at a position and tests no bound. A selector is
  therefore its size and the value a read at each position gives: its entries below the
  size, and whatever the memory holds from there on.
\<close>

record selector =
  selector_size :: nat
  selector_at :: "nat \<Rightarrow> nat"

text \<open>
  The ways the function ends other than by returning: the exception it throws, with the
  two sizes of its message, and a failed \<^verbatim>\<open>DCHECK_GE\<close> or \<^verbatim>\<open>DCHECK_LE\<close>, which aborts
  the process.
\<close>

datatype failure =
  INTERNAL_ERROR nat nat
  | DCHECK_GE_FAILED
  | DCHECK_LE_FAILED

text \<open>
  \<^verbatim>\<open>size_t\<close> is unsigned and 64 bits wide: sizes and positions are natural numbers, and
  the two operations of the argument of \<^verbatim>\<open>reserve\<close> wrap around.
\<close>

definition size_t_sub :: "nat \<Rightarrow> nat \<Rightarrow> nat" where
  "size_t_sub a b = (a + 2 ^ 64 - b) mod 2 ^ 64"

definition size_t_add :: "nat \<Rightarrow> nat \<Rightarrow> nat" where
  "size_t_add a b = (a + b) mod 2 ^ 64"

text \<open>
  The loop \<^verbatim>\<open>for (size_t i = begin; i < end; ++i)\<close>, whose body is the one call
  \<^verbatim>\<open>insert_from(*this, selector[i])\<close>.
\<close>

function append_loop :: "'c derived \<Rightarrow> 'c \<Rightarrow> selector \<Rightarrow> nat \<Rightarrow> nat \<Rightarrow> 'c \<Rightarrow> 'c" where
  "append_loop D src selector i i_end res =
     (if i < i_end
      then append_loop D src selector (Suc i) i_end
             (insert_from D src (selector_at selector i) res)
      else res)"
  by pat_completeness auto
termination
  by (relation "measure (\<lambda>(D, src, selector, i, i_end, res). i_end - i)") auto

declare append_loop.simps [simp del]

text \<open>
  The function, on the source column \<open>src\<close> (\<^verbatim>\<open>*this\<close>) and the destination \<open>res\<close>. It
  returns how it ended (\<open>None\<close>: it returned) and the destination as it left it. The
  flag \<open>dcheck\<close> says whether the build has the \<^verbatim>\<open>DCHECK\<close> macros enabled, where a failed
  condition aborts, or compiled out, where they do nothing.
\<close>

definition append_data_by_selector_impl ::
  "'c derived \<Rightarrow> bool \<Rightarrow> 'c \<Rightarrow> 'c \<Rightarrow> selector \<Rightarrow> nat \<Rightarrow> nat \<Rightarrow> failure option \<times> 'c" where
  "append_data_by_selector_impl D dcheck src res selector i_begin i_end =
     (let num_rows = size_of D src
      in if num_rows < selector_size selector
         then (Some (INTERNAL_ERROR (selector_size selector) num_rows), res)
         else if dcheck \<and> \<not> i_begin \<le> i_end then (Some DCHECK_GE_FAILED, res)
         else if dcheck \<and> \<not> i_end \<le> selector_size selector then (Some DCHECK_LE_FAILED, res)
         else (None,
               append_loop D src selector i_begin i_end
                 (reserve D (size_t_add (size_of D res) (size_t_sub i_end i_begin)) res)))"

text \<open>The overload without bounds appends the rows of the whole selector.\<close>

definition append_data_by_selector_impl_all ::
  "'c derived \<Rightarrow> bool \<Rightarrow> 'c \<Rightarrow> 'c \<Rightarrow> selector \<Rightarrow> failure option \<times> 'c" where
  "append_data_by_selector_impl_all D dcheck src res selector =
     append_data_by_selector_impl D dcheck src res selector 0 (selector_size selector)"

text \<open>
  A column class to run the template on: a column is the list of its values,
  \<open>reserve\<close> changes no value, and \<open>insert_from\<close> appends the value it reads at the row it
  is given. And the selector with the entries \<open>xs\<close>, followed in memory by \<open>pad\<close>.
\<close>

definition list_column :: "'a list derived" where
  "list_column =
     \<lparr>size_of = length,
      reserve = (\<lambda>n xs. xs),
      insert_from = (\<lambda>src n res. res @ [src ! n])\<rparr>"

definition selector_of :: "nat list \<Rightarrow> nat list \<Rightarrow> selector" where
  "selector_of xs pad = \<lparr>selector_size = length xs, selector_at = (\<lambda>i. (xs @ pad) ! i)\<rparr>"

section \<open>Signed arithmetic on 64-bit words\<close>

lemma sint_in_range:
  fixes k :: int
  assumes "- (2 ^ 63) \<le> k" and "k < 2 ^ 63"
  shows "sint (word_of_int k :: int64) = k"
  using assms by (simp add: sint_sbintrunc' signed_take_bit_int_eq_self)

lemma sint_add3:
  fixes a b c :: int64
  assumes "- (2 ^ 63) \<le> sint a + sint b + sint c" and "sint a + sint b + sint c < 2 ^ 63"
  shows "sint (a + b + c) = sint a + sint b + sint c"
proof -
  have "a + b + c = word_of_int (sint a + sint b + sint c)"
    by simp
  then show ?thesis
    using sint_in_range [OF assms] by simp
qed

lemma sint_sub3:
  fixes a b c :: int64
  assumes "- (2 ^ 63) \<le> sint a - sint b - sint c" and "sint a - sint b - sint c < 2 ^ 63"
  shows "sint (a - b - c) = sint a - sint b - sint c"
proof -
  have "a - b - c = word_of_int (sint a - sint b - sint c)"
    by simp
  then show ?thesis
    using sint_in_range [OF assms] by simp
qed

lemma sint_add_in_range:
  fixes a b :: int64
  assumes "- (2 ^ 63) \<le> sint a + sint b" and "sint a + sint b < 2 ^ 63"
  shows "sint (a + b) = sint a + sint b"
  using assms by (simp add: sint_word_ariths signed_take_bit_int_eq_self)

lemma sint_sub_in_range:
  fixes a b :: int64
  assumes "- (2 ^ 63) \<le> sint a - sint b" and "sint a - sint b < 2 ^ 63"
  shows "sint (a - b) = sint a - sint b"
  using assms by (simp add: sint_word_ariths signed_take_bit_int_eq_self)

lemma sle_0_iff: "(0 \<le>s (x::int64)) = (\<not> x <s 0)"
  by (simp add: word_sle_eq word_sless_alt not_less)

section \<open>The usage estimator\<close>

text \<open>
  C4. \<open>process_memory_usage()\<close> is the sampled resident set size plus the growth since the
  last refresh plus the reserved memory, that is, the value of the ledger
  \<^verbatim>\<open>_process_reserved_memory\<close>. The sum is the \<^verbatim>\<open>int64_t\<close> sum of the source; it is
  the sum of the three signed values whenever that sum is an \<^verbatim>\<open>int64_t\<close>. With a sample
  of 1000, a growth of 50 and 20 bytes reserved it is 1070.
\<close>

theorem process_memory_usage_is_sum:
  "process_memory_usage s =
     vm_rss s + refresh_interval_memory_growth s + m_process_reserved_memory s
   \<and> (- (2 ^ 63) \<le> sint (vm_rss s) + sint (refresh_interval_memory_growth s)
                      + sint (m_process_reserved_memory s)
      \<and> sint (vm_rss s) + sint (refresh_interval_memory_growth s)
          + sint (m_process_reserved_memory s) < 2 ^ 63
      \<longrightarrow> sint (process_memory_usage s) =
            sint (vm_rss s) + sint (refresh_interval_memory_growth s)
              + sint (m_process_reserved_memory s))
   \<and> (vm_rss s = 1000 \<and> refresh_interval_memory_growth s = 50
        \<and> m_process_reserved_memory s = 20
      \<longrightarrow> process_memory_usage s = 1070)"
proof (intro conjI impI)
  show sum: "process_memory_usage s =
          vm_rss s + refresh_interval_memory_growth s + m_process_reserved_memory s"
    by (simp add: process_memory_usage_def process_reserved_memory_def)
  assume "- (2 ^ 63) \<le> sint (vm_rss s) + sint (refresh_interval_memory_growth s)
                         + sint (m_process_reserved_memory s)
          \<and> sint (vm_rss s) + sint (refresh_interval_memory_growth s)
              + sint (m_process_reserved_memory s) < 2 ^ 63"
  then show "sint (process_memory_usage s) =
               sint (vm_rss s) + sint (refresh_interval_memory_growth s)
                 + sint (m_process_reserved_memory s)"
    unfolding sum by (intro sint_add3) simp_all
next
  assume "vm_rss s = 1000 \<and> refresh_interval_memory_growth s = 50
          \<and> m_process_reserved_memory s = 20"
  then show "process_memory_usage s = 1070"
    by (simp add: process_memory_usage_def process_reserved_memory_def)
qed

theorem process_memory_usage_is_sum_witness:
  "vm_rss scenario_state = 1000 \<and> refresh_interval_memory_growth scenario_state = 50
   \<and> m_process_reserved_memory scenario_state = 20
   \<and> sint (vm_rss scenario_state) + sint (refresh_interval_memory_growth scenario_state)
       + sint (m_process_reserved_memory scenario_state) < 2 ^ 63
   \<and> sint (process_memory_usage scenario_state) = 1000 + 50 + 20
   \<and> process_memory_usage scenario_state = 1070
   \<and> process_memory_usage (scenario_state\<lparr>m_process_reserved_memory := 30\<rparr>) = 1080"
  using process_memory_usage_is_sum [of scenario_state]
        process_memory_usage_is_sum [of "scenario_state\<lparr>m_process_reserved_memory := 30\<rparr>"]
  by (simp add: scenario_state_def)

text \<open>
  C5. \<open>sys_mem_available()\<close> is the sampled available memory of the system minus the growth
  since the last refresh minus the reserved memory, that is, the value of the ledger
  \<^verbatim>\<open>_process_reserved_memory\<close>. The difference is the \<^verbatim>\<open>int64_t\<close> difference of the
  source; it is the difference of the three signed values whenever that difference is an
  \<^verbatim>\<open>int64_t\<close>. With a sample of 5000, a growth of 50 and 20 bytes reserved it is 4930.
\<close>

theorem sys_mem_available_is_difference:
  "sys_mem_available s =
     s_sys_mem_available s - refresh_interval_memory_growth s - m_process_reserved_memory s
   \<and> (- (2 ^ 63) \<le> sint (s_sys_mem_available s) - sint (refresh_interval_memory_growth s)
                      - sint (m_process_reserved_memory s)
      \<and> sint (s_sys_mem_available s) - sint (refresh_interval_memory_growth s)
          - sint (m_process_reserved_memory s) < 2 ^ 63
      \<longrightarrow> sint (sys_mem_available s) =
            sint (s_sys_mem_available s) - sint (refresh_interval_memory_growth s)
              - sint (m_process_reserved_memory s))
   \<and> (s_sys_mem_available s = 5000 \<and> refresh_interval_memory_growth s = 50
        \<and> m_process_reserved_memory s = 20
      \<longrightarrow> sys_mem_available s = 4930)"
proof (intro conjI impI)
  show diff: "sys_mem_available s =
          s_sys_mem_available s - refresh_interval_memory_growth s - m_process_reserved_memory s"
    by (simp add: sys_mem_available_def process_reserved_memory_def)
  assume "- (2 ^ 63) \<le> sint (s_sys_mem_available s) - sint (refresh_interval_memory_growth s)
                         - sint (m_process_reserved_memory s)
          \<and> sint (s_sys_mem_available s) - sint (refresh_interval_memory_growth s)
              - sint (m_process_reserved_memory s) < 2 ^ 63"
  then show "sint (sys_mem_available s) =
               sint (s_sys_mem_available s) - sint (refresh_interval_memory_growth s)
                 - sint (m_process_reserved_memory s)"
    unfolding diff by (intro sint_sub3) simp_all
next
  assume "s_sys_mem_available s = 5000 \<and> refresh_interval_memory_growth s = 50
          \<and> m_process_reserved_memory s = 20"
  then show "sys_mem_available s = 4930"
    by (simp add: sys_mem_available_def process_reserved_memory_def)
qed

theorem sys_mem_available_is_difference_witness:
  "s_sys_mem_available scenario_state = 5000
   \<and> refresh_interval_memory_growth scenario_state = 50
   \<and> m_process_reserved_memory scenario_state = 20
   \<and> - (2 ^ 63) \<le> sint (s_sys_mem_available scenario_state)
                      - sint (refresh_interval_memory_growth scenario_state)
                      - sint (m_process_reserved_memory scenario_state)
   \<and> sint (sys_mem_available scenario_state) = 5000 - 50 - 20
   \<and> sys_mem_available scenario_state = 4930
   \<and> sys_mem_available (scenario_state\<lparr>m_process_reserved_memory := 30\<rparr>) = 4920"
  using sys_mem_available_is_difference [of scenario_state]
        sys_mem_available_is_difference [of "scenario_state\<lparr>m_process_reserved_memory := 30\<rparr>"]
  by (simp add: scenario_state_def)

section \<open>The admission predicates\<close>

lemma not_pos_if_le_0: "bytes \<le>s 0 \<Longrightarrow> \<not> 0 <s (bytes :: int64)"
  by (simp add: word_sle_eq word_sless_alt)

lemma is_exceed_soft_mem_limit_skip:
  assumes "\<not> 0 <s bytes"
  shows "is_exceed_soft_mem_limit sub bytes s =
           (let rt = (soft_mem_limit s \<le>s process_memory_usage s + bytes \<or>
                      sys_mem_available s - bytes <s sys_mem_available_warning_water_mark s)
            in (rt, if rt then print_log_process_usage s else s))"
  using assms by (simp add: is_exceed_soft_mem_limit_def)

lemma is_exceed_hard_mem_limit_skip:
  assumes "\<not> 0 <s bytes"
  shows "is_exceed_hard_mem_limit sub bytes s =
           (let rt = (mem_limit s \<le>s process_memory_usage s + bytes \<or>
                      sys_mem_available s - bytes <s sys_mem_available_low_water_mark s)
            in (rt, if rt then print_log_process_usage s else s))"
  using assms by (simp add: is_exceed_hard_mem_limit_def)

lemma is_exceed_soft_mem_limit_covered:
  assumes "0 <s bytes" and "fst (sub bytes s) \<le>s 0"
  shows "is_exceed_soft_mem_limit sub bytes s = (False, snd (sub bytes s))"
  using assms by (cases "sub bytes s") (simp add: is_exceed_soft_mem_limit_def)

lemma is_exceed_hard_mem_limit_covered:
  assumes "0 <s bytes" and "fst (sub bytes s) \<le>s 0"
  shows "is_exceed_hard_mem_limit sub bytes s = (False, snd (sub bytes s))"
  using assms by (cases "sub bytes s") (simp add: is_exceed_hard_mem_limit_def)


lemma is_exceed_hard_mem_limit_checked:
  assumes "0 <s bytes" and "\<not> fst (sub bytes s) \<le>s 0"
  shows "is_exceed_hard_mem_limit sub bytes s =
           (let s1 = snd (sub bytes s);
                rt = (mem_limit s1 \<le>s process_memory_usage s1 + bytes \<or>
                      sys_mem_available s1 - bytes <s sys_mem_available_low_water_mark s1)
            in (rt, if rt then print_log_process_usage s1 else s1))"
  using assms by (cases "sub bytes s") (simp add: is_exceed_hard_mem_limit_def Let_def)

text \<open>
  C9. Called with \<open>bytes \<le> 0\<close>, which includes the default argument 0, a predicate does
  not call \<open>sub_thread_reserve_memory\<close>: whatever that function is, the result is the
  disjunction of the limit condition and the water-mark condition on the state of the
  call, and the state afterwards is the state of the call, with one more snapshot logged
  when the result is true.
\<close>

theorem is_exceed_nonpositive_bytes_skips_reservation:
  assumes "bytes \<le>s 0"
  shows "is_exceed_soft_mem_limit sub bytes s =
           (let rt = (soft_mem_limit s \<le>s process_memory_usage s + bytes \<or>
                      sys_mem_available s - bytes <s sys_mem_available_warning_water_mark s)
            in (rt, if rt then print_log_process_usage s else s))
         \<and> is_exceed_hard_mem_limit sub bytes s =
           (let rt = (mem_limit s \<le>s process_memory_usage s + bytes \<or>
                      sys_mem_available s - bytes <s sys_mem_available_low_water_mark s)
            in (rt, if rt then print_log_process_usage s else s))"
proof
  have skipped: "\<not> 0 <s bytes"
    using assms by (rule not_pos_if_le_0)
  show "is_exceed_soft_mem_limit sub bytes s =
           (let rt = (soft_mem_limit s \<le>s process_memory_usage s + bytes \<or>
                      sys_mem_available s - bytes <s sys_mem_available_warning_water_mark s)
            in (rt, if rt then print_log_process_usage s else s))"
    using skipped by (rule is_exceed_soft_mem_limit_skip)
  show "is_exceed_hard_mem_limit sub bytes s =
           (let rt = (mem_limit s \<le>s process_memory_usage s + bytes \<or>
                      sys_mem_available s - bytes <s sys_mem_available_low_water_mark s)
            in (rt, if rt then print_log_process_usage s else s))"
    using skipped by (rule is_exceed_hard_mem_limit_skip)
qed

theorem is_exceed_nonpositive_bytes_skips_reservation_witness:
  "(0 :: int64) \<le>s 0
   \<and> 0 <s thread_reserved_mem pressure_state
   \<and> is_exceed_soft_mem_limit sub_thread_reserve_memory 0 pressure_state =
       (True, print_log_process_usage pressure_state)
   \<and> is_exceed_hard_mem_limit sub_thread_reserve_memory 0 pressure_state =
       (True, print_log_process_usage pressure_state)"
  using is_exceed_nonpositive_bytes_skips_reservation
          [of 0 sub_thread_reserve_memory pressure_state]
  by (simp add: pressure_state_def process_memory_usage_def sys_mem_available_def
        process_reserved_memory_def word_sle_eq word_sless_alt)

text \<open>
  C3. When the reservation check does not end the call (\<open>bytes\<close> is not positive, or
  \<open>sub_thread_reserve_memory\<close> returns a positive remainder), \<open>is_exceed_hard_mem_limit\<close>
  returns true exactly when \<open>process_memory_usage() + bytes >= mem_limit\<close> or
  \<open>sys_mem_available() - bytes < low_water_mark\<close>, the two estimates being the ones the call
  computes, that is, after \<open>sub_thread_reserve_memory\<close> has run when \<open>bytes\<close> is positive;
  they are the estimates of the state of the call when that function leaves the state as
  it is. For \<open>bytes = 0\<close>, and with the availability condition not met, the result is true
  when \<open>process_memory_usage() >= mem_limit\<close> and false when the usage is strictly below.
\<close>

theorem is_exceed_hard_mem_limit_iff_limits:
  "(\<not> (0 <s bytes \<and> fst (sub bytes s) \<le>s 0) \<longrightarrow>
      fst (is_exceed_hard_mem_limit sub bytes s) =
        (let s1 = (if 0 <s bytes then snd (sub bytes s) else s)
         in mem_limit s1 \<le>s process_memory_usage s1 + bytes \<or>
            sys_mem_available s1 - bytes <s sys_mem_available_low_water_mark s1))
   \<and> (\<not> (0 <s bytes \<and> fst (sub bytes s) \<le>s 0) \<and> snd (sub bytes s) = s \<longrightarrow>
      fst (is_exceed_hard_mem_limit sub bytes s) =
        (mem_limit s \<le>s process_memory_usage s + bytes \<or>
         sys_mem_available s - bytes <s sys_mem_available_low_water_mark s))
   \<and> fst (is_exceed_hard_mem_limit sub 0 s) =
        (mem_limit s \<le>s process_memory_usage s \<or>
         sys_mem_available s <s sys_mem_available_low_water_mark s)
   \<and> (\<not> sys_mem_available s <s sys_mem_available_low_water_mark s \<longrightarrow>
      fst (is_exceed_hard_mem_limit sub 0 s) = (mem_limit s \<le>s process_memory_usage s))"
proof -
  have general: "fst (is_exceed_hard_mem_limit sub bytes s) =
        (let s1 = (if 0 <s bytes then snd (sub bytes s) else s)
         in mem_limit s1 \<le>s process_memory_usage s1 + bytes \<or>
            sys_mem_available s1 - bytes <s sys_mem_available_low_water_mark s1)"
    if "\<not> (0 <s bytes \<and> fst (sub bytes s) \<le>s 0)"
  proof (cases "0 <s bytes")
    case True
    with that have "\<not> fst (sub bytes s) \<le>s 0" by simp
    with True is_exceed_hard_mem_limit_checked [of bytes sub s] show ?thesis
      by (simp add: Let_def)
  next
    case False
    from is_exceed_hard_mem_limit_skip [OF False] False show ?thesis
      by (simp add: Let_def)
  qed
  have zero: "fst (is_exceed_hard_mem_limit sub 0 s) =
        (mem_limit s \<le>s process_memory_usage s \<or>
         sys_mem_available s <s sys_mem_available_low_water_mark s)"
    by (simp add: is_exceed_hard_mem_limit_skip Let_def)
  show ?thesis
  proof (intro conjI impI)
    assume "\<not> (0 <s bytes \<and> fst (sub bytes s) \<le>s 0)"
    then show "fst (is_exceed_hard_mem_limit sub bytes s) =
        (let s1 = (if 0 <s bytes then snd (sub bytes s) else s)
         in mem_limit s1 \<le>s process_memory_usage s1 + bytes \<or>
            sys_mem_available s1 - bytes <s sys_mem_available_low_water_mark s1)"
      by (rule general)
  next
    assume "\<not> (0 <s bytes \<and> fst (sub bytes s) \<le>s 0) \<and> snd (sub bytes s) = s"
    then show "fst (is_exceed_hard_mem_limit sub bytes s) =
        (mem_limit s \<le>s process_memory_usage s + bytes \<or>
         sys_mem_available s - bytes <s sys_mem_available_low_water_mark s)"
      using general by (simp add: Let_def)
  next
    show "fst (is_exceed_hard_mem_limit sub 0 s) =
        (mem_limit s \<le>s process_memory_usage s \<or>
         sys_mem_available s <s sys_mem_available_low_water_mark s)"
      by (rule zero)
  next
    assume "\<not> sys_mem_available s <s sys_mem_available_low_water_mark s"
    then show "fst (is_exceed_hard_mem_limit sub 0 s) = (mem_limit s \<le>s process_memory_usage s)"
      using zero by simp
  qed
qed

theorem is_exceed_hard_mem_limit_iff_limits_witness:
  "\<not> (0 <s 5 \<and> fst (sub_thread_reserve_memory 5 (scenario_state\<lparr>mem_limit := 1075\<rparr>)) \<le>s 0)
   \<and> snd (sub_thread_reserve_memory 5 (scenario_state\<lparr>mem_limit := 1075\<rparr>)) =
       scenario_state\<lparr>mem_limit := 1075\<rparr>
   \<and> fst (is_exceed_hard_mem_limit sub_thread_reserve_memory 5
            (scenario_state\<lparr>mem_limit := 1075\<rparr>))
   \<and> \<not> fst (is_exceed_hard_mem_limit sub_thread_reserve_memory 5
              (scenario_state\<lparr>mem_limit := 1076\<rparr>))
   \<and> \<not> sys_mem_available (scenario_state\<lparr>mem_limit := 1070\<rparr>)
         <s sys_mem_available_low_water_mark (scenario_state\<lparr>mem_limit := 1070\<rparr>)
   \<and> fst (is_exceed_hard_mem_limit sub_thread_reserve_memory 0
            (scenario_state\<lparr>mem_limit := 1070\<rparr>))
   \<and> \<not> fst (is_exceed_hard_mem_limit sub_thread_reserve_memory 0
              (scenario_state\<lparr>mem_limit := 1071\<rparr>))"
  using is_exceed_hard_mem_limit_iff_limits
          [of 5 sub_thread_reserve_memory "scenario_state\<lparr>mem_limit := 1075\<rparr>"]
        is_exceed_hard_mem_limit_iff_limits
          [of 5 sub_thread_reserve_memory "scenario_state\<lparr>mem_limit := 1076\<rparr>"]
        is_exceed_hard_mem_limit_iff_limits
          [of 0 sub_thread_reserve_memory "scenario_state\<lparr>mem_limit := 1070\<rparr>"]
        is_exceed_hard_mem_limit_iff_limits
          [of 0 sub_thread_reserve_memory "scenario_state\<lparr>mem_limit := 1071\<rparr>"]
  by (simp add: scenario_state_def sub_thread_reserve_memory_def process_memory_usage_def
        sys_mem_available_def process_reserved_memory_def word_sle_eq word_sless_alt)

lemma sub_thread_reserve_memory_frame:
  "snd (sub_thread_reserve_memory bytes s) =
     s\<lparr>m_process_reserved_memory :=
           m_process_reserved_memory (snd (sub_thread_reserve_memory bytes s)),
       thread_reserved_mem := thread_reserved_mem (snd (sub_thread_reserve_memory bytes s))\<rparr>"
  by (simp add: sub_thread_reserve_memory_def shrink_process_reserved_def Let_def)

lemma sub_thread_reserve_memory_nothing:
  assumes "bytes \<le>s 0 \<or> thread_reserved_mem s \<le>s 0"
  shows "sub_thread_reserve_memory bytes s = (bytes, s)"
  using assms by (simp add: sub_thread_reserve_memory_def)

lemma sub_thread_reserve_memory_covered:
  assumes "0 <s bytes" and "bytes \<le>s thread_reserved_mem s"
  shows "fst (sub_thread_reserve_memory bytes s) = 0"
  using assms
  by (auto simp add: sub_thread_reserve_memory_def Let_def word_sle_eq word_sless_alt)




text \<open>
  C1, as the code has it. A thread that holds a reservation of at least \<open>bytes\<close> and asks
  for a positive \<open>bytes\<close> is admitted by both predicates, whatever the usage estimate and
  the limits are. With \<open>bytes = 0\<close> the reservation is not
  consulted.
\<close>

theorem covered_request_is_admitted:
  assumes "0 <s bytes" and "bytes \<le>s thread_reserved_mem s"
  shows "\<not> fst (is_exceed_soft_mem_limit sub_thread_reserve_memory bytes s)
         \<and> \<not> fst (is_exceed_hard_mem_limit sub_thread_reserve_memory bytes s)"
proof -
  have "fst (sub_thread_reserve_memory bytes s) \<le>s 0"
    using sub_thread_reserve_memory_covered [OF assms] by simp
  with assms(1) show ?thesis
    by (simp add: is_exceed_soft_mem_limit_covered is_exceed_hard_mem_limit_covered)
qed

theorem covered_request_is_admitted_witness:
  "0 <s (10 :: int64) \<and> 10 \<le>s thread_reserved_mem pressure_state
   \<and> mem_limit pressure_state \<le>s process_memory_usage pressure_state + 10
   \<and> \<not> fst (is_exceed_soft_mem_limit sub_thread_reserve_memory 10 pressure_state)
   \<and> \<not> fst (is_exceed_hard_mem_limit sub_thread_reserve_memory 10 pressure_state)"
proof -
  have pos: "0 <s (10 :: int64)"
    by (simp add: word_sless_alt)
  have held: "10 \<le>s thread_reserved_mem pressure_state"
    by (simp add: pressure_state_def word_sle_eq)
  have over: "mem_limit pressure_state \<le>s process_memory_usage pressure_state + 10"
    by (simp add: pressure_state_def process_memory_usage_def process_reserved_memory_def
          word_sle_eq)
  from pos held over covered_request_is_admitted [OF pos held] show ?thesis
    by simp
qed

text \<open>
  C1, as the claim states it, fails at \<open>bytes = 0\<close>: the request is within the reservation of
  10 bytes the thread holds, and both predicates report the limits as exceeded.
\<close>

theorem reserved_thread_zero_bytes_exceeds:
  "(0 :: int64) \<le>s 0 \<and> 0 \<le>s thread_reserved_mem pressure_state
   \<and> fst (is_exceed_soft_mem_limit sub_thread_reserve_memory 0 pressure_state)
   \<and> fst (is_exceed_hard_mem_limit sub_thread_reserve_memory 0 pressure_state)"
  by (simp add: is_exceed_soft_mem_limit_skip is_exceed_hard_mem_limit_skip pressure_state_def
        process_memory_usage_def sys_mem_available_def process_reserved_memory_def
        word_sle_eq word_sless_alt)








section \<open>The reservation ledger\<close>

lemma shrink_process_reserved_nonneg:
  "0 \<le>s process_reserved_memory (shrink_process_reserved bytes s)"
  by (simp add: shrink_process_reserved_def process_reserved_memory_def Let_def sle_0_iff)

lemma shrink_process_reserved_clamps:
  assumes "0 \<le>s process_reserved_memory s" and "process_reserved_memory s <s bytes"
  shows "process_reserved_memory (shrink_process_reserved bytes s) = 0"
proof -
  let ?a = "m_process_reserved_memory s"
  have a: "0 \<le> sint ?a" and b: "sint ?a < sint bytes"
    using assms by (simp_all add: process_reserved_memory_def word_sle_eq word_sless_alt)
  have "sint bytes < 2 ^ 63"
    using sint_lt [of bytes] by simp
  with a b have "sint (?a - bytes) = sint ?a - sint bytes"
    by (intro sint_sub_in_range) simp_all
  with b have "?a - bytes <s 0"
    by (simp add: word_sless_alt)
  then show ?thesis
    by (simp add: shrink_process_reserved_def process_reserved_memory_def Let_def)
qed

lemma reserve_process_memory_nonneg:
  assumes "0 \<le>s process_reserved_memory s" and "increment_fits bytes s"
  shows "0 \<le>s process_reserved_memory (snd (reserve_process_memory bytes s))"
proof -
  let ?a = "process_reserved_memory s"
  have nonneg: "0 \<le> sint ?a" "0 \<le> sint bytes" and fits: "sint ?a + sint bytes < 2 ^ 63"
    using assms by (simp_all add: increment_fits_def word_sle_eq)
  then have "sint (?a + bytes) = sint ?a + sint bytes"
    by (intro sint_add_in_range) simp_all
  with nonneg show ?thesis
    by (simp add: reserve_process_memory_def process_reserved_memory_def word_sle_eq)
qed

lemma try_reserve_process_memory_nonneg:
  assumes "0 \<le>s process_reserved_memory s" and "reject bytes s \<or> increment_fits bytes s"
  shows "0 \<le>s process_reserved_memory (snd (try_reserve_process_memory reject bytes s))"
proof (cases "reject bytes s")
  case True
  with assms(1) show ?thesis by (simp add: try_reserve_process_memory_def)
next
  case False
  with assms have "0 \<le>s process_reserved_memory (snd (reserve_process_memory bytes s))"
    by (simp add: reserve_process_memory_nonneg)
  with False show ?thesis
    by (simp add: try_reserve_process_memory_def reserve_process_memory_def)
qed

lemma sub_thread_reserve_memory_nonneg:
  assumes "0 \<le>s process_reserved_memory s"
  shows "0 \<le>s process_reserved_memory (snd (sub_thread_reserve_memory bytes s))"
  using assms shrink_process_reserved_nonneg
  by (simp add: sub_thread_reserve_memory_def Let_def)

lemma ledger_step_nonneg:
  assumes "0 \<le>s process_reserved_memory s" and "call_fits reject c s"
  shows "0 \<le>s process_reserved_memory (ledger_step reject c s)"
proof (cases c)
  case (Reserve bytes)
  with assms show ?thesis by (simp add: reserve_process_memory_nonneg)
next
  case (Try_reserve bytes)
  with assms show ?thesis
    by (simp add: try_reserve_process_memory_nonneg split: if_splits)
next
  case (Shrink bytes)
  then show ?thesis by (simp add: shrink_process_reserved_nonneg)
next
  case (Sub_thread_reserve bytes)
  with assms show ?thesis by (simp add: sub_thread_reserve_memory_nonneg)
qed

lemma ledger_run_nonneg:
  assumes "0 \<le>s process_reserved_memory s" and "increments_fit reject calls s"
  shows "0 \<le>s process_reserved_memory (ledger_run reject calls s)"
  using assms
proof (induction calls arbitrary: s)
  case Nil
  then show ?case by simp
next
  case (Cons c calls)
  from Cons.prems have "0 \<le>s process_reserved_memory (ledger_step reject c s)"
    by (simp add: ledger_step_nonneg)
  with Cons.prems Cons.IH show ?case by simp
qed

text \<open>
  C6, as the model of the ledger has it. \<open>shrink_process_reserved\<close> leaves the reserved
  memory non-negative from any state and for any \<open>bytes\<close>, and leaves it at zero when
  \<open>bytes\<close> exceeds a non-negative current value. \<open>sub_thread_reserve_memory\<close> keeps it
  non-negative. \<open>reserve_process_memory\<close> and \<open>try_reserve_process_memory\<close> keep it
  non-negative when \<open>bytes\<close> is non-negative and the incremented counter is still an
  \<^verbatim>\<open>int64_t\<close>. So the reserved memory is non-negative in every state reached from a
  non-negative one by calls whose increments fit.
\<close>

theorem process_reserved_memory_nonnegative:
  "0 \<le>s process_reserved_memory (shrink_process_reserved bytes s)
   \<and> (0 \<le>s process_reserved_memory s \<and> process_reserved_memory s <s bytes \<longrightarrow>
        process_reserved_memory (shrink_process_reserved bytes s) = 0)
   \<and> (0 \<le>s process_reserved_memory s \<longrightarrow>
        0 \<le>s process_reserved_memory (snd (sub_thread_reserve_memory bytes s)))
   \<and> (0 \<le>s process_reserved_memory s \<and> increment_fits bytes s \<longrightarrow>
        0 \<le>s process_reserved_memory (snd (reserve_process_memory bytes s))
        \<and> 0 \<le>s process_reserved_memory (snd (try_reserve_process_memory reject bytes s)))
   \<and> (0 \<le>s process_reserved_memory s \<and> increments_fit reject calls s \<longrightarrow>
        0 \<le>s process_reserved_memory (ledger_run reject calls s))"
  by (intro conjI impI shrink_process_reserved_nonneg)
     (simp_all add: shrink_process_reserved_clamps sub_thread_reserve_memory_nonneg
        reserve_process_memory_nonneg try_reserve_process_memory_nonneg ledger_run_nonneg)

theorem process_reserved_memory_nonnegative_witness:
  "0 \<le>s process_reserved_memory scenario_state
   \<and> process_reserved_memory scenario_state <s 50
   \<and> process_reserved_memory (shrink_process_reserved 50 scenario_state) = 0
   \<and> increment_fits 30 scenario_state
   \<and> increments_fit (\<lambda>bytes s. False)
        [Reserve 30, Shrink 100, Try_reserve 7, Sub_thread_reserve 3] scenario_state
   \<and> process_reserved_memory
        (ledger_run (\<lambda>bytes s. False)
           [Reserve 30, Shrink 100, Try_reserve 7, Sub_thread_reserve 3] scenario_state) = 7
   \<and> 0 \<le>s process_reserved_memory
        (ledger_run (\<lambda>bytes s. False)
           [Reserve 30, Shrink 100, Try_reserve 7, Sub_thread_reserve 3] scenario_state)"
  using process_reserved_memory_nonnegative
          [of 50 scenario_state "\<lambda>bytes s. False"
              "[Reserve 30, Shrink 100, Try_reserve 7, Sub_thread_reserve 3]"]
  by (simp add: scenario_state_def process_reserved_memory_def increment_fits_def
        reserve_process_memory_def try_reserve_process_memory_def shrink_process_reserved_def
        sub_thread_reserve_memory_def Let_def word_sle_eq word_sless_alt)

text \<open>
  C6, as the claim states it, fails for \<open>reserve_process_memory\<close>, which adds \<open>bytes\<close> with
  no condition: from an empty ledger a reservation of \<open>-5\<close> bytes leaves \<open>-5\<close>, and from a
  ledger of \<open>2^63 - 1\<close> bytes a reservation of one byte wraps around to \<open>-2^63\<close>.
\<close>

theorem reserve_process_memory_can_go_negative:
  "0 \<le>s process_reserved_memory (scenario_state\<lparr>m_process_reserved_memory := 0\<rparr>)
   \<and> process_reserved_memory
       (snd (reserve_process_memory (- 5) (scenario_state\<lparr>m_process_reserved_memory := 0\<rparr>)))
     <s 0
   \<and> 0 \<le>s process_reserved_memory
          (scenario_state\<lparr>m_process_reserved_memory := 9223372036854775807\<rparr>)
   \<and> process_reserved_memory
       (snd (reserve_process_memory 1
              (scenario_state\<lparr>m_process_reserved_memory := 9223372036854775807\<rparr>)))
     <s 0"
  by (simp add: scenario_state_def process_reserved_memory_def reserve_process_memory_def
        word_sle_eq word_sless_alt)

text \<open>
  C7, as the model of the ledger has it. \<open>reserve_process_memory(bytes)\<close> followed by
  \<open>shrink_process_reserved(bytes)\<close> leaves \<open>process_reserved_memory()\<close> at the value the
  ledger had before the two calls when that value is non-negative, and at zero when it
  is negative. This holds for every \<open>bytes\<close>, the non-negative ones among them; the
  wrap-around of the counter does not matter, since the decrement undoes the increment.
\<close>

theorem reserve_then_shrink_round_trip:
  "process_reserved_memory
     (shrink_process_reserved bytes (snd (reserve_process_memory bytes s))) =
     (if m_process_reserved_memory s <s 0 then 0 else m_process_reserved_memory s)
   \<and> (0 \<le>s m_process_reserved_memory s \<longrightarrow>
        process_reserved_memory
          (shrink_process_reserved bytes (snd (reserve_process_memory bytes s))) =
        m_process_reserved_memory s)
   \<and> (m_process_reserved_memory s <s 0 \<longrightarrow>
        process_reserved_memory
          (shrink_process_reserved bytes (snd (reserve_process_memory bytes s))) = 0)"
  by (simp add: shrink_process_reserved_def reserve_process_memory_def
        process_reserved_memory_def Let_def sle_0_iff)

theorem reserve_then_shrink_round_trip_witness:
  "0 \<le>s m_process_reserved_memory scenario_state \<and> (0 :: int64) \<le>s 7
   \<and> m_process_reserved_memory scenario_state = 20
   \<and> process_reserved_memory (snd (reserve_process_memory 7 scenario_state)) = 27
   \<and> process_reserved_memory
       (shrink_process_reserved 7 (snd (reserve_process_memory 7 scenario_state))) = 20
   \<and> m_process_reserved_memory (scenario_state\<lparr>m_process_reserved_memory := - 5\<rparr>) <s 0
   \<and> process_reserved_memory
       (shrink_process_reserved 7
          (snd (reserve_process_memory 7
                  (scenario_state\<lparr>m_process_reserved_memory := - 5\<rparr>)))) = 0"
proof -
  have held: "0 \<le>s m_process_reserved_memory scenario_state"
    by (simp add: scenario_state_def word_sle_eq)
  have pos: "(0 :: int64) \<le>s 7"
    by (simp add: word_sle_eq)
  have before: "m_process_reserved_memory scenario_state = 20"
    by (simp add: scenario_state_def)
  have between: "process_reserved_memory (snd (reserve_process_memory 7 scenario_state)) = 27"
    by (simp add: scenario_state_def process_reserved_memory_def reserve_process_memory_def)
  have negative:
    "m_process_reserved_memory (scenario_state\<lparr>m_process_reserved_memory := - 5\<rparr>) <s 0"
    by (simp add: word_sless_alt)
  from reserve_then_shrink_round_trip [of 7 scenario_state] held before
  have same: "process_reserved_memory
       (shrink_process_reserved 7 (snd (reserve_process_memory 7 scenario_state))) = 20"
    by simp
  from reserve_then_shrink_round_trip
         [of 7 "scenario_state\<lparr>m_process_reserved_memory := - 5\<rparr>"] negative
  have zero: "process_reserved_memory
       (shrink_process_reserved 7
          (snd (reserve_process_memory 7
                  (scenario_state\<lparr>m_process_reserved_memory := - 5\<rparr>)))) = 0"
    by blast
  from held pos before between same negative zero show ?thesis
    by (intro conjI)
qed

text \<open>
  C7, as the claim states it, fails from a negative ledger, which the unconditional
  \<open>reserve_process_memory\<close> reaches: a reservation of one byte on a ledger of \<open>2^63 - 1\<close>
  bytes wraps around to \<open>-2^63\<close>, and a reservation of \<open>-5\<close> bytes on an empty ledger
  leaves \<open>-5\<close>. From either state, reserving and then shrinking 3 bytes leaves 0, not the
  value before the two calls.
\<close>

theorem reserve_then_shrink_from_negative_ledger:
  "(0 :: int64) \<le>s 3
   \<and> process_reserved_memory
       (snd (reserve_process_memory 1
               (scenario_state\<lparr>m_process_reserved_memory := 9223372036854775807\<rparr>))) =
     - 9223372036854775808
   \<and> process_reserved_memory
       (shrink_process_reserved 3
          (snd (reserve_process_memory 3
             (snd (reserve_process_memory 1
                (scenario_state\<lparr>m_process_reserved_memory := 9223372036854775807\<rparr>)))))) = 0
   \<and> process_reserved_memory
       (snd (reserve_process_memory (- 5) (scenario_state\<lparr>m_process_reserved_memory := 0\<rparr>))) =
     - 5
   \<and> process_reserved_memory
       (shrink_process_reserved 3
          (snd (reserve_process_memory 3
             (snd (reserve_process_memory (- 5)
                (scenario_state\<lparr>m_process_reserved_memory := 0\<rparr>)))))) = 0"
  by (simp add: scenario_state_def process_reserved_memory_def reserve_process_memory_def
        shrink_process_reserved_def Let_def word_sle_eq word_sless_alt)

section \<open>The pressure notifiers\<close>

text \<open>
  C8. \<open>notify_cache_adjust_capacity()\<close> stores true into the flag and wakes the waiting
  threads; it counts nothing. Calling it any number of times in a row, with no consumer
  in between, leaves the state a single call leaves.
\<close>

theorem notify_cache_adjust_capacity_coalesces:
  "(notify_cache_adjust_capacity ^^ Suc n) s = notify_cache_adjust_capacity s
   \<and> notify_cache_adjust_capacity (notify_cache_adjust_capacity s) =
       notify_cache_adjust_capacity s
   \<and> notify_cache_adjust_capacity s =
       s\<lparr>cache_adjust_capacity_notify := True, cache_adjust_capacity_cv_waiting := 0\<rparr>"
proof -
  have idem: "notify_cache_adjust_capacity (notify_cache_adjust_capacity t) =
                notify_cache_adjust_capacity t" for t
    by (simp add: notify_cache_adjust_capacity_def)
  have "(notify_cache_adjust_capacity ^^ Suc n) s = notify_cache_adjust_capacity s"
  proof (induction n)
    case 0
    show ?case by simp
  next
    case (Suc n)
    have "(notify_cache_adjust_capacity ^^ Suc (Suc n)) s =
            notify_cache_adjust_capacity ((notify_cache_adjust_capacity ^^ Suc n) s)"
      by simp
    also have "\<dots> = notify_cache_adjust_capacity (notify_cache_adjust_capacity s)"
      by (simp only: Suc.IH)
    also have "\<dots> = notify_cache_adjust_capacity s"
      by (rule idem)
    finally show ?case .
  qed
  then show ?thesis
    using idem [of s] by (simp add: notify_cache_adjust_capacity_def)
qed

theorem notify_cache_adjust_capacity_coalesces_witness:
  "(notify_cache_adjust_capacity ^^ Suc 2) pressure_state =
     pressure_state\<lparr>cache_adjust_capacity_notify := True,
                      cache_adjust_capacity_cv_waiting := 0\<rparr>"
proof -
  note three = notify_cache_adjust_capacity_coalesces [of 2 pressure_state]
  from three have many: "(notify_cache_adjust_capacity ^^ Suc 2) pressure_state =
                           notify_cache_adjust_capacity pressure_state"
    by (rule conjunct1)
  from three have once: "notify_cache_adjust_capacity pressure_state =
                           pressure_state\<lparr>cache_adjust_capacity_notify := True,
                                            cache_adjust_capacity_cv_waiting := 0\<rparr>"
    by (rule conjunct2 [THEN conjunct2])
  show ?thesis
    by (simp only: many once)
qed

section \<open>Appending rows by a selector\<close>

lemma append_loop_done:
  "\<not> i < i_end \<Longrightarrow> append_loop D src selector i i_end res = res"
  by (simp add: append_loop.simps)

lemma append_loop_step:
  "i < i_end \<Longrightarrow>
   append_loop D src selector i i_end res =
     append_loop D src selector (Suc i) i_end (insert_from D src (selector_at selector i) res)"
  by (subst append_loop.simps) simp

lemmas append_loop_eval = append_loop_done append_loop_step

lemma append_loop_appends:
  assumes "i \<le> i_end"
    and "\<forall>j r. i \<le> j \<and> j < i_end \<longrightarrow>
           size_of D (insert_from D src (selector_at selector j) r) = Suc (size_of D r)"
  shows "size_of D (append_loop D src selector i i_end res) = size_of D res + (i_end - i)"
  using assms
proof (induction D src selector i i_end res rule: append_loop.induct)
  case (1 D src selector i i_end res)
  show ?case
  proof (cases "i < i_end")
    case False
    then show ?thesis by (simp add: append_loop_done)
  next
    case True
    let ?res = "insert_from D src (selector_at selector i) res"
    from "1.prems"(2) True have one: "size_of D ?res = Suc (size_of D res)"
      by simp
    have rest: "\<forall>j r. Suc i \<le> j \<and> j < i_end \<longrightarrow>
           size_of D (insert_from D src (selector_at selector j) r) = Suc (size_of D r)"
      using "1.prems"(2) by (simp add: Suc_le_eq less_imp_le)
    from True have "Suc i \<le> i_end" by simp
    with "1.IH" [OF True] rest
    have "size_of D (append_loop D src selector (Suc i) i_end ?res) =
            size_of D ?res + (i_end - Suc i)"
      by simp
    with True one show ?thesis
      by (simp add: append_loop_step)
  qed
qed

text \<open>
  With the \<^verbatim>\<open>DCHECK\<close>s compiled out and \<open>end\<close> past the size of the selector, the loop
  reads what the memory holds there: with a zero after the one entry, row 0 is appended
  twice.
\<close>

lemma append_data_by_selector_impl_reads_past_the_end:
  "append_data_by_selector_impl list_column False [7 :: nat] [1] (selector_of [0] [0]) 0 2 =
     (None, [1, 7, 7])"
  by (simp add: append_data_by_selector_impl_def list_column_def selector_of_def
        append_loop_eval)

text \<open>
  C10, as the code has it. When the selector is longer than the source column has rows,
  the function throws \<^verbatim>\<open>INTERNAL_ERROR\<close> and the destination is as it was. Otherwise it
  does not throw \<^verbatim>\<open>INTERNAL_ERROR\<close>; and when \<open>begin \<le> end \<le> selector.size()\<close>, which is
  what the two \<^verbatim>\<open>DCHECK\<close>s ask for, \<^verbatim>\<open>reserve\<close> leaves the size of the destination as
  it is and every \<^verbatim>\<open>insert_from\<close> of the loop appends one value, the function returns
  and the destination has \<open>end - begin\<close> values more.
\<close>

theorem append_data_by_selector_impl_size_check:
  "(size_of D src < selector_size selector \<longrightarrow>
      append_data_by_selector_impl D dcheck src res selector i_begin i_end =
        (Some (INTERNAL_ERROR (selector_size selector) (size_of D src)), res))
   \<and> (\<not> size_of D src < selector_size selector \<longrightarrow>
        (\<forall>m n. fst (append_data_by_selector_impl D dcheck src res selector i_begin i_end)
                 \<noteq> Some (INTERNAL_ERROR m n)))
   \<and> (\<not> size_of D src < selector_size selector
        \<and> i_begin \<le> i_end \<and> i_end \<le> selector_size selector
        \<and> (\<forall>n r. size_of D (reserve D n r) = size_of D r)
        \<and> (\<forall>j r. i_begin \<le> j \<and> j < i_end \<longrightarrow>
              size_of D (insert_from D src (selector_at selector j) r) = Suc (size_of D r))
      \<longrightarrow> fst (append_data_by_selector_impl D dcheck src res selector i_begin i_end) = None
          \<and> size_of D (snd (append_data_by_selector_impl D dcheck src res selector i_begin i_end)) =
              size_of D res + (i_end - i_begin))"
proof (intro conjI impI allI)
  assume "size_of D src < selector_size selector"
  then show "append_data_by_selector_impl D dcheck src res selector i_begin i_end =
        (Some (INTERNAL_ERROR (selector_size selector) (size_of D src)), res)"
    by (simp add: append_data_by_selector_impl_def)
next
  fix m n
  assume "\<not> size_of D src < selector_size selector"
  then show "fst (append_data_by_selector_impl D dcheck src res selector i_begin i_end)
                 \<noteq> Some (INTERNAL_ERROR m n)"
    by (simp add: append_data_by_selector_impl_def)
next
  assume a: "\<not> size_of D src < selector_size selector
        \<and> i_begin \<le> i_end \<and> i_end \<le> selector_size selector
        \<and> (\<forall>n r. size_of D (reserve D n r) = size_of D r)
        \<and> (\<forall>j r. i_begin \<le> j \<and> j < i_end \<longrightarrow>
              size_of D (insert_from D src (selector_at selector j) r) = Suc (size_of D r))"
  let ?res = "reserve D (size_t_add (size_of D res) (size_t_sub i_end i_begin)) res"
  from a have run: "append_data_by_selector_impl D dcheck src res selector i_begin i_end =
                 (None, append_loop D src selector i_begin i_end ?res)"
    by (simp add: append_data_by_selector_impl_def)
  from a have "size_of D (append_loop D src selector i_begin i_end ?res) =
                 size_of D ?res + (i_end - i_begin)"
    by (intro append_loop_appends) simp_all
  with a run show "fst (append_data_by_selector_impl D dcheck src res selector i_begin i_end) = None"
    and "size_of D (snd (append_data_by_selector_impl D dcheck src res selector i_begin i_end)) =
              size_of D res + (i_end - i_begin)"
    by simp_all
qed

theorem append_data_by_selector_impl_size_check_witness:
  "size_of list_column [10, 20, 30 :: nat] < selector_size (selector_of [0, 1, 2, 0] [])
   \<and> append_data_by_selector_impl list_column True [10, 20, 30 :: nat] [1]
        (selector_of [0, 1, 2, 0] []) 0 4 =
       (Some (INTERNAL_ERROR 4 3), [1])
   \<and> \<not> size_of list_column [10, 20, 30 :: nat] < selector_size (selector_of [2, 0, 1] [])
   \<and> append_data_by_selector_impl list_column True [10, 20, 30 :: nat] [1]
        (selector_of [2, 0, 1] []) 1 3 =
       (None, [1, 10, 20])
   \<and> size_of list_column
        (snd (append_data_by_selector_impl list_column True [10, 20, 30 :: nat] [1]
                (selector_of [2, 0, 1] []) 1 3)) =
       size_of list_column [1 :: nat] + (3 - 1)"
proof -
  let ?src = "[10, 20, 30 :: nat]"
  have too_long: "size_of list_column ?src < selector_size (selector_of [0, 1, 2, 0] [])"
    by (simp add: list_column_def selector_of_def)
  have fits: "\<not> size_of list_column ?src < selector_size (selector_of [2, 0, 1] [])"
    by (simp add: list_column_def selector_of_def)
  have bounds: "(1 :: nat) \<le> 3 \<and> 3 \<le> selector_size (selector_of [2, 0, 1] [])"
    by (simp add: selector_of_def)
  have rows: "\<forall>j r. (1 :: nat) \<le> j \<and> j < 3 \<longrightarrow>
      size_of list_column
        (insert_from list_column ?src (selector_at (selector_of [2, 0, 1] []) j) r) =
      Suc (size_of list_column r)"
    by (simp add: list_column_def)
  have kept: "\<forall>n r. size_of list_column (reserve list_column n (r :: nat list)) =
                size_of list_column r"
    by (simp add: list_column_def)
  note thm1 = append_data_by_selector_impl_size_check
    [where D = list_column and src = ?src and selector = "selector_of [0, 1, 2, 0] []"
       and dcheck = True and res = "[1]" and i_begin = 0 and i_end = 4]
  note thm2 = append_data_by_selector_impl_size_check
    [where D = list_column and src = ?src and selector = "selector_of [2, 0, 1] []"
       and dcheck = True and res = "[1]" and i_begin = 1 and i_end = 3]
  from thm1 too_long
  have a: "append_data_by_selector_impl list_column True ?src [1]
             (selector_of [0, 1, 2, 0] []) 0 4 =
             (Some (INTERNAL_ERROR 4 3), [1])"
    by (simp add: list_column_def selector_of_def)
  from thm2 fits bounds rows kept
  have b: "size_of list_column
        (snd (append_data_by_selector_impl list_column True ?src [1]
                (selector_of [2, 0, 1] []) 1 3)) =
       size_of list_column [1 :: nat] + (3 - 1)"
    by simp
  have c: "append_data_by_selector_impl list_column True ?src [1]
             (selector_of [2, 0, 1] []) 1 3 =
       (None, [1, 10, 20])"
    by (simp add: append_data_by_selector_impl_def list_column_def selector_of_def
          append_loop_eval)
  from too_long fits a b c show ?thesis by blast
qed

text \<open>
  C10, as the claim states it, fails outside \<open>begin \<le> end \<le> selector.size()\<close>. On a source
  of one row and a selector of one entry the size check passes. With \<open>begin = 1\<close> and
  \<open>end = 0\<close> nothing is appended, whether the \<^verbatim>\<open>DCHECK\<close>s are enabled or not, where
  \<open>end - begin\<close> is \<open>2^64 - 1\<close> in \<^verbatim>\<open>size_t\<close>. With \<open>begin = 0\<close> and \<open>end = 2\<close> and the
  \<^verbatim>\<open>DCHECK\<close>s enabled, the \<^verbatim>\<open>DCHECK_LE\<close> fails and nothing is appended, not two values.
\<close>

theorem append_data_by_selector_impl_outside_bounds:
  "\<not> size_of list_column [7 :: nat] < selector_size (selector_of [0] [0])
   \<and> append_data_by_selector_impl list_column True [7 :: nat] [1] (selector_of [0] [0]) 1 0 =
       (Some DCHECK_GE_FAILED, [1])
   \<and> append_data_by_selector_impl list_column False [7 :: nat] [1] (selector_of [0] [0]) 1 0 =
       (None, [1])
   \<and> size_t_sub 0 1 = 18446744073709551615
   \<and> append_data_by_selector_impl list_column True [7 :: nat] [1] (selector_of [0] [0]) 0 2 =
       (Some DCHECK_LE_FAILED, [1])"
  by (simp add: append_data_by_selector_impl_def list_column_def selector_of_def
        append_loop_eval size_t_sub_def)

end
